theory Spec2Isabelle
  imports Complex_Main
begin

section \<open>Text splitting\<close>

text \<open>
  Python strings are modelled as \<open>string\<close>: one \<open>char\<close> stands for one character of
  the Python \<open>str\<close>, \<open>length\<close> is \<open>len\<close>, \<open>take j\<close> is \<open>text[:j]\<close> and
  \<open>drop (j + 1)\<close> is \<open>text[j + 1:]\<close>. A tuple of phrases is a list of strings.
\<close>

definition space_indices :: "string \<Rightarrow> nat list" where
  "space_indices text = [i \<leftarrow> [0..<length text]. text ! i = CHR '' '']"

definition space_proximities :: "string \<Rightarrow> int list" where
  "space_proximities text =
     map (\<lambda>i. \<bar>int i - int (length text div 2)\<bar>) (space_indices text)"

text \<open>
  The \<open>for i, j in zip(...)\<close> loop of \<open>_split\<close>: it stops (\<open>break\<close>) at the first pair
  whose proximity equals the minimum; \<open>None\<close> means that the loop ran to its end and
  \<open>result\<close> kept its initial value.
\<close>

fun split_loop :: "int \<Rightarrow> (int \<times> nat) list \<Rightarrow> nat option" where
  "split_loop m [] = None"
| "split_loop m ((i, j) # ps) = (if i = m then Some j else split_loop m ps)"

definition split_text :: "string \<Rightarrow> string list" where
  "split_text text =
     (if 3 \<le> length text \<and> CHR '' '' \<in> set (butlast (tl text)) then
        (case split_loop (min_list (space_proximities text))
                (zip (space_proximities text) (space_indices text)) of
           Some j \<Rightarrow> [take j text, drop (j + 1) text]
         | None \<Rightarrow> [text])
      else [text])"


text \<open>
  The vocabulary of the statements about \<open>_split\<close>: an interior space is a space at
  an index other than the first and the last one, and the proximity of an index is its
  distance to the midpoint \<open>len(text) // 2\<close>.
\<close>

definition interior_space :: "string \<Rightarrow> nat \<Rightarrow> bool" where
  "interior_space text k \<longleftrightarrow> 0 < k \<and> k + 1 < length text \<and> text ! k = CHR '' ''"

definition proximity :: "string \<Rightarrow> nat \<Rightarrow> int" where
  "proximity text i = \<bar>int i - int (length text div 2)\<bar>"

section \<open>Font size search\<close>

text \<open>
  \<open>ImageFont.truetype(font, size).getsize(text)\<close> belongs to the imaging library. It is
  a parameter \<open>getsize\<close> of the model: the font, the size and the text give the pair
  (width, height) of the rendered text. Python integers are \<open>int\<close>, and \<open>//\<close> on them
  is \<open>div\<close> (both round towards minus infinity).
\<close>

type_synonym 'f getsize = "'f \<Rightarrow> int \<Rightarrow> string \<Rightarrow> int \<times> int"

text \<open>The \<open>while\<close> loop of \<open>_maximize_font_size\<close>, on the loop variable \<open>font_size\<close>.\<close>

function maximize_loop :: "'f getsize \<Rightarrow> 'f \<Rightarrow> string \<Rightarrow> int \<Rightarrow> int \<Rightarrow> int" where
  "maximize_loop getsize font text max_size font_size =
     (if fst (getsize font font_size text) > max_size \<and> font_size > 1
      then maximize_loop getsize font text max_size (font_size - 1)
      else font_size)"
  by pat_completeness auto
termination
  by (relation "measure (\<lambda>(getsize, font, text, max_size, font_size). nat font_size)") auto

declare maximize_loop.simps [simp del]

definition maximize_font_size :: "'f getsize \<Rightarrow> 'f \<Rightarrow> string \<Rightarrow> int \<Rightarrow> int" where
  "maximize_font_size getsize font text max_size =
     maximize_loop getsize font text max_size max_size"

text \<open>\<open>'\n'.join(phrases)\<close>\<close>

fun join_lines :: "string list \<Rightarrow> string" where
  "join_lines [] = []"
| "join_lines [p] = p"
| "join_lines (p # ps) = p @ [CHR 0x0A] @ join_lines ps"

text \<open>The value of the variable \<open>phrases\<close> of \<open>_optimize_font_size\<close>.\<close>

definition phrases_of :: "'f getsize \<Rightarrow> 'f \<Rightarrow> string \<Rightarrow> int \<Rightarrow> int \<Rightarrow> string list" where
  "phrases_of getsize font text min_font_size max_text_len =
     (let text_size = getsize font min_font_size text
      in if fst text_size > max_text_len then split_text text else [text])"

definition optimize_font_size ::
  "'f getsize \<Rightarrow> 'f \<Rightarrow> string \<Rightarrow> int \<Rightarrow> int \<Rightarrow> int \<Rightarrow> int \<times> string" where
  "optimize_font_size getsize font text max_font_size min_font_size max_text_len =
     (let phrases = phrases_of getsize font text min_font_size max_text_len;
          font_size = max_font_size div int (length phrases);
          font_size = fold (\<lambda>phrase font_size.
                              min (maximize_font_size getsize font phrase max_text_len) font_size)
                        phrases font_size
      in (font_size, join_lines phrases))"

text \<open>
  A concrete measuring function for evaluating the search: every character is as wide
  as the font size, and a line is as high as the font size.
\<close>

definition linear_getsize :: "unit getsize" where
  "linear_getsize font font_size text = (font_size * int (length text), font_size)"



section \<open>The path of a generated image\<close>

text \<open>
  The attributes of \<open>Image\<close> hold Python values of several types: \<open>None\<close>, strings,
  integers, and objects such as the font. What \<open>path\<close> and \<open>hash\<close> do with a value is
  to test its truth value (\<open>any\<close>, \<open>or\<close>) and to format it with \<open>{}\<close>, so an object is
  given by its truth value and its \<open>str()\<close>.
\<close>

datatype pyval = PNone | PStr string | PInt int | PBool bool | PObj bool string

fun truthy :: "pyval \<Rightarrow> bool" where
  "truthy PNone = False"
| "truthy (PStr s) = (s \<noteq> [])"
| "truthy (PInt i) = (i \<noteq> 0)"
| "truthy (PBool b) = b"
| "truthy (PObj b s) = b"

definition digit_char :: "nat \<Rightarrow> char" where
  "digit_char d = ''0123456789'' ! (d mod 10)"

function str_nat :: "nat \<Rightarrow> string" where
  "str_nat n = (if n < 10 then [digit_char n] else str_nat (n div 10) @ [digit_char (n mod 10)])"
  by pat_completeness auto
termination
  by (relation "measure (\<lambda>n. n)") auto

declare str_nat.simps [simp del]

definition str_int :: "int \<Rightarrow> string" where
  "str_int i = (if i < 0 then ''-'' @ str_nat (nat (- i)) else str_nat (nat i))"

fun py_str :: "pyval \<Rightarrow> string" where
  "py_str PNone = ''None''"
| "py_str (PStr s) = s"
| "py_str (PInt i) = str_int i"
| "py_str (PBool b) = (if b then ''True'' else ''False'')"
| "py_str (PObj b s) = s"

text \<open>\<open>value or ""\<close>\<close>

definition or_empty :: "pyval \<Rightarrow> pyval" where
  "or_empty v = (if truthy v then v else PStr [])"

text \<open>\<open>"{}:{}".format(index, value)\<close>\<close>

definition format_index_value :: "nat \<Rightarrow> pyval \<Rightarrow> string" where
  "format_index_value index v = str_nat index @ '':'' @ py_str v"

text \<open>
  \<open>hashlib.md5\<close> and \<open>str.encode\<close> belong to the Python library. They are a parameter
  of the model: a fresh digest state, \<open>update\<close>, \<open>hexdigest\<close>, and the UTF-8 encoding
  of a string into the bytes that \<open>update\<close> takes.
\<close>

record ('h, 'b) hashlib =
  md5_new :: "'h"
  md5_update :: "'h \<Rightarrow> 'b \<Rightarrow> 'h"
  md5_hexdigest :: "'h \<Rightarrow> string"
  encode_utf8 :: "string \<Rightarrow> 'b"

definition hash :: "('h, 'b) hashlib \<Rightarrow> pyval list \<Rightarrow> string" where
  "hash H vals =
     md5_hexdigest H
       (fold (\<lambda>(index, v) sha.
                md5_update H sha (encode_utf8 H (format_index_value index (or_empty v))))
          (enumerate 0 vals) (md5_new H))"

text \<open>
  \<open>os.path.join\<close> in its POSIX form: a component that starts with the separator
  replaces what was joined so far, and no separator is added after an empty path or
  after a path that ends with one.
\<close>

definition join_step :: "string \<Rightarrow> string \<Rightarrow> string" where
  "join_step b p =
     (if b \<noteq> [] \<and> hd b = CHR ''/'' then b
      else if p = [] \<or> last p = CHR ''/'' then p @ b
      else p @ ''/'' @ b)"

definition os_path_join :: "string \<Rightarrow> string list \<Rightarrow> string" where
  "os_path_join a ps = fold join_step ps a"

text \<open>
  The attributes of \<open>Image\<close> that \<open>path\<close> reads; \<open>self_template_key\<close> is
  \<open>self.template.key\<close> and \<open>self_text_path\<close> is \<open>self.text.path\<close>.
\<close>

record meme =
  self_root :: "string option"
  self_template_key :: string
  self_style :: pyval
  self_text_path :: string
  self_font :: pyval
  self_width :: pyval
  self_height :: pyval
  self_watermark :: pyval

definition path :: "('h, 'b) hashlib \<Rightarrow> meme \<Rightarrow> string option" where
  "path H self =
     (case self_root self of
        None \<Rightarrow> None
      | Some r \<Rightarrow>
          if r = [] then None
          else
            let base = os_path_join r [self_template_key self, self_text_path self];
                custom = [self_style self, self_font self, self_watermark self,
                          self_width self, self_height self]
            in if list_ex truthy custom
               then Some (base @ ''#'' @ hash H custom @ ''.img'')
               else Some (base @ ''.img''))"

text \<open>
  The serialisation of one style field as the statement about \<open>path\<close> words it: the
  field's value, or nothing when the field is empty or absent (falsy in Python: \<open>None\<close>,
  the empty string, \<open>0\<close>, \<open>False\<close>).
\<close>

definition field_value :: "pyval \<Rightarrow> string" where
  "field_value v = (if truthy v then py_str v else [])"

text \<open>
  A transparent digest for evaluating \<open>path\<close> and \<open>hash\<close>: the state is the bytes fed
  so far and the digest shows them.
\<close>

definition plain_digest :: "(string, string) hashlib" where
  "plain_digest =
     \<lparr>md5_new = [], md5_update = (\<lambda>sha b. sha @ b), md5_hexdigest = (\<lambda>sha. sha),
      encode_utf8 = (\<lambda>s. s)\<rparr>"


section \<open>Generating the image\<close>

text \<open>
  An image of the imaging library is modelled by what \<open>_generate\<close> reads and sets:
  its mode, its format tag, its size (width, height), and, in place of the pixels, the
  captions painted on it in order, each with its font size and the range of its outline.
  Positions, colours and pixel values are left out.

  The library's operations on this data:
  \<^item> \<open>convert\<close>, \<open>resize\<close>, \<open>point\<close> and \<open>filter\<close> return a new image whose format tag is
    unset; \<open>resize\<close> gives the requested size and raises \<open>ValueError\<close> for a width or
    height below 1;
  \<^item> \<open>new\<close> raises \<open>ValueError\<close> for a negative width or height;
  \<^item> \<open>paste\<close> keeps the size, mode and format of the image pasted onto.
\<close>

datatype error = ZeroDivisionError | ValueError | OverflowError | OSError

record pil_image =
  img_mode :: string
  img_format :: "string option"
  img_size :: "int \<times> int"
  img_texts :: "(string \<times> int \<times> int) list"

definition convert :: "pil_image \<Rightarrow> string \<Rightarrow> pil_image" where
  "convert im mode = im\<lparr>img_mode := mode, img_format := None\<rparr>"

definition resize :: "pil_image \<Rightarrow> int \<times> int \<Rightarrow> error + pil_image" where
  "resize im dimensions =
     (if fst dimensions < 1 \<or> snd dimensions < 1 then Inl ValueError
      else Inr (im\<lparr>img_size := dimensions, img_format := None\<rparr>))"

definition new_image :: "string \<Rightarrow> int \<times> int \<Rightarrow> error + pil_image" where
  "new_image mode dimensions =
     (if fst dimensions < 0 \<or> snd dimensions < 0 then Inl ValueError
      else Inr \<lparr>img_mode = mode, img_format = None, img_size = dimensions, img_texts = []\<rparr>)"

definition paste :: "pil_image \<Rightarrow> pil_image \<Rightarrow> int \<times> int \<Rightarrow> pil_image" where
  "paste im src offset = im\<lparr>img_texts := img_texts im @ img_texts src\<rparr>"

definition point :: "pil_image \<Rightarrow> pil_image" where
  "point im = im\<lparr>img_format := None\<rparr>"

definition gaussian_blur :: "pil_image \<Rightarrow> pil_image" where
  "gaussian_blur im = im\<lparr>img_format := None\<rparr>"

text \<open>
  The size computation of \<open>_generate\<close> runs on Python floats. Their arithmetic is a
  parameter of the model, so that nothing below depends on how a double rounds: \<open>'r\<close> is
  the type of floats, and each operation gives its result or the exception it raises
  (\<open>ZeroDivisionError\<close> for a zero divisor, \<open>OverflowError\<close> for an integer or result
  out of the range of a float).
\<close>

record 'r floats =
  fl_int_truediv :: "int \<Rightarrow> int \<Rightarrow> error + 'r"
  fl_truediv :: "int \<Rightarrow> 'r \<Rightarrow> error + 'r"
  fl_mul :: "int \<Rightarrow> 'r \<Rightarrow> error + 'r"
  fl_less :: "int \<Rightarrow> 'r \<Rightarrow> bool"
  fl_int :: "'r \<Rightarrow> error + int"

text \<open>
  \<open>a / b\<close> on two integers: a zero divisor raises whatever the float arithmetic is.
\<close>

definition py_truediv :: "'r floats \<Rightarrow> int \<Rightarrow> int \<Rightarrow> error + 'r" where
  "py_truediv F a b = (if b = 0 then Inl ZeroDivisionError else fl_int_truediv F a b)"

text \<open>\<open>int(a / b)\<close> on two integers, \<open>int(a / r)\<close> and \<open>int(a * r)\<close> on an integer and a float.\<close>

definition int_truediv :: "'r floats \<Rightarrow> int \<Rightarrow> int \<Rightarrow> error + int" where
  "int_truediv F a b =
     (case py_truediv F a b of Inl e \<Rightarrow> Inl e | Inr q \<Rightarrow> fl_int F q)"

definition int_div_float :: "'r floats \<Rightarrow> int \<Rightarrow> 'r \<Rightarrow> error + int" where
  "int_div_float F a r =
     (case fl_truediv F a r of Inl e \<Rightarrow> Inl e | Inr q \<Rightarrow> fl_int F q)"

definition int_mul_float :: "'r floats \<Rightarrow> int \<Rightarrow> 'r \<Rightarrow> error + int" where
  "int_mul_float F a r =
     (case fl_mul F a r of Inl e \<Rightarrow> Inl e | Inr q \<Rightarrow> fl_int F q)"

text \<open>
  The font library is a parameter as well, with the exceptions it raises:
  \<open>ImageFont.truetype(font, size)\<close> gives a font object or raises (a font file that cannot
  be read, a size that the library refuses), and \<open>getsize\<close> and \<open>multiline_textsize\<close>
  measure a text with a font object. Painting with a loaded font does not raise.
\<close>

record ('f, 'o) fonts =
  lib_truetype :: "'f \<Rightarrow> int \<Rightarrow> error + 'o"
  lib_getsize :: "'o \<Rightarrow> string \<Rightarrow> error + int \<times> int"
  lib_multiline_textsize :: "'o \<Rightarrow> string \<Rightarrow> error + int \<times> int"

text \<open>
  \<open>_maximize_font_size\<close> and \<open>_optimize_font_size\<close> with the exceptions of the font
  library: the first call that raises ends the search. Where no call raises, they return
  what \<open>maximize_font_size\<close> and \<open>optimize_font_size\<close> return for the measure
  \<open>measured\<close>.
\<close>

function maximize_loop_raising ::
  "('f, 'o) fonts \<Rightarrow> 'f \<Rightarrow> string \<Rightarrow> int \<Rightarrow> int \<Rightarrow> error + int" where
  "maximize_loop_raising L font text max_size font_size =
     (case lib_truetype L font font_size of
        Inl e \<Rightarrow> Inl e
      | Inr fontobj \<Rightarrow>
          (case lib_getsize L fontobj text of
             Inl e \<Rightarrow> Inl e
           | Inr text_size \<Rightarrow>
               if fst text_size > max_size \<and> font_size > 1
               then maximize_loop_raising L font text max_size (font_size - 1)
               else Inr font_size))"
  by pat_completeness auto
termination
  by (relation "measure (\<lambda>(L, font, text, max_size, font_size). nat font_size)") auto

declare maximize_loop_raising.simps [simp del]

definition maximize_font_size_raising ::
  "('f, 'o) fonts \<Rightarrow> 'f \<Rightarrow> string \<Rightarrow> int \<Rightarrow> error + int" where
  "maximize_font_size_raising L font text max_size =
     maximize_loop_raising L font text max_size max_size"

text \<open>The \<open>for phrase in phrases\<close> loop of \<open>_optimize_font_size\<close>.\<close>

fun phrases_loop_raising ::
  "('f, 'o) fonts \<Rightarrow> 'f \<Rightarrow> int \<Rightarrow> string list \<Rightarrow> int \<Rightarrow> error + int" where
  "phrases_loop_raising L font max_text_len [] font_size = Inr font_size"
| "phrases_loop_raising L font max_text_len (phrase # phrases) font_size =
     (case maximize_font_size_raising L font phrase max_text_len of
        Inl e \<Rightarrow> Inl e
      | Inr m \<Rightarrow> phrases_loop_raising L font max_text_len phrases (min m font_size))"

definition optimize_font_size_raising ::
  "('f, 'o) fonts \<Rightarrow> 'f \<Rightarrow> string \<Rightarrow> int \<Rightarrow> int \<Rightarrow> int \<Rightarrow> error + int \<times> string" where
  "optimize_font_size_raising L font text max_font_size min_font_size max_text_len =
     (case lib_truetype L font min_font_size of
        Inl e \<Rightarrow> Inl e
      | Inr fontobj \<Rightarrow>
          (case lib_getsize L fontobj text of
             Inl e \<Rightarrow> Inl e
           | Inr text_size \<Rightarrow>
               let phrases = (if fst text_size > max_text_len then split_text text else [text]);
                   font_size = max_font_size div int (length phrases)
               in case phrases_loop_raising L font max_text_len phrases font_size of
                    Inl e \<Rightarrow> Inl e
                  | Inr font_size \<Rightarrow> Inr (font_size, join_lines phrases)))"

definition measured :: "('f, 'o) fonts \<Rightarrow> 'f getsize" where
  "measured L font font_size text =
     (case lib_truetype L font font_size of
        Inl e \<Rightarrow> (0, 0)
      | Inr fontobj \<Rightarrow>
          (case lib_getsize L fontobj text of Inl e \<Rightarrow> (0, 0) | Inr text_size \<Rightarrow> text_size))"

text \<open>
  A width or height is an integer or \<open>None\<close>. \<open>given\<close> is the value under Python's truth
  test: \<open>None\<close> and \<open>0\<close> are false.
\<close>

fun given :: "int option \<Rightarrow> int option" where
  "given None = None"
| "given (Some n) = (if n = 0 then None else Some n)"

text \<open>
  \<open>_draw_outlined_text\<close>: the black copies at the offsets within \<open>outline_range\<close> and
  the white copy on top are recorded as one caption with its font size and
  \<open>outline_range\<close>.
\<close>

definition draw_outlined_text :: "pil_image \<Rightarrow> string \<Rightarrow> int \<Rightarrow> pil_image" where
  "draw_outlined_text draw_image caption font_size =
     (let outline_range = max 1 (font_size div 25)
      in draw_image\<lparr>img_texts := img_texts draw_image @ [(caption, font_size, outline_range)]\<rparr>)"

definition add_blurred_background ::
  "pil_image \<Rightarrow> pil_image \<Rightarrow> int \<Rightarrow> int \<Rightarrow> error + pil_image" where
  "add_blurred_background foreground background width height =
     (let (base_width, base_height) = img_size foreground;
          border_width = min width (base_width + 2);
          border_height = min height (base_height + 2);
          border_dimensions = (border_width, border_height)
      in case new_image ''RGB'' border_dimensions of
           Inl e \<Rightarrow> Inl e
         | Inr border \<Rightarrow>
             let border = paste border foreground
                            ((border_width - base_width) div 2,
                             (border_height - base_height) div 2);
                 padded_dimensions = (width, height)
             in case resize background padded_dimensions of
                  Inl e \<Rightarrow> Inl e
                | Inr padded \<Rightarrow>
                    let darkened = point padded;
                        blurred = gaussian_blur darkened;
                        blurred = blurred\<lparr>img_format := Some ''PNG''\<rparr>;
                        (blurred_width, blurred_height) = img_size blurred;
                        offset = ((blurred_width - border_width) div 2,
                                  (blurred_height - border_height) div 2)
                    in Inr (paste blurred border offset))"

text \<open>
  The conversion of a background whose mode is neither RGB nor RGBA
  (the first \<open>if\<close> of \<open>_generate\<close>).
\<close>

definition convert_background :: "pil_image \<Rightarrow> pil_image" where
  "convert_background background_image =
     (if img_mode background_image \<noteq> ''RGB'' \<and> img_mode background_image \<noteq> ''RGBA'' then
        if img_format background_image = Some ''JPEG''
        then (convert background_image ''RGB'')\<lparr>img_format := Some ''JPEG''\<rparr>
        else (convert background_image ''RGBA'')\<lparr>img_format := Some ''PNG''\<rparr>
      else background_image)"

text \<open>The \<open>if width and height: ... elif width: ... elif height: ... else: ...\<close> chain.\<close>

definition dimensions_of ::
  "'r floats \<Rightarrow> 'r \<Rightarrow> int option \<Rightarrow> int option \<Rightarrow> error + int \<times> int" where
  "dimensions_of F ratio width height =
     (case (given width, given height) of
        (Some w, Some h) \<Rightarrow>
          (case fl_mul F h ratio of
             Inl e \<Rightarrow> Inl e
           | Inr scaled \<Rightarrow>
               if fl_less F w scaled
               then (case int_div_float F w ratio of Inl e \<Rightarrow> Inl e | Inr n \<Rightarrow> Inr (w, n))
               else (case int_mul_float F h ratio of Inl e \<Rightarrow> Inl e | Inr n \<Rightarrow> Inr (n, h)))
      | (Some w, None) \<Rightarrow>
          (case int_div_float F w ratio of Inl e \<Rightarrow> Inl e | Inr n \<Rightarrow> Inr (w, n))
      | (None, Some h) \<Rightarrow>
          (case int_mul_float F h ratio of Inl e \<Rightarrow> Inl e | Inr n \<Rightarrow> Inr (n, h))
      | (None, None) \<Rightarrow>
          (case int_div_float F 600 ratio of Inl e \<Rightarrow> Inl e | Inr n \<Rightarrow> Inr (600, n)))"

text \<open>The part of \<open>_generate\<close> under \<open># Resize to a maximum height and width\<close>.\<close>

definition resize_background ::
  "'r floats \<Rightarrow> pil_image \<Rightarrow> int option \<Rightarrow> int option \<Rightarrow> error + pil_image" where
  "resize_background F background_image width height =
     (case py_truediv F (fst (img_size background_image)) (snd (img_size background_image)) of
        Inl e \<Rightarrow> Inl e
      | Inr ratio \<Rightarrow>
          (case dimensions_of F ratio width height of
             Inl e \<Rightarrow> Inl e
           | Inr dimensions \<Rightarrow>
               (case resize background_image dimensions of
                  Inl e \<Rightarrow> Inl e
                | Inr img \<Rightarrow> Inr (img\<lparr>img_format := Some ''PNG''\<rparr>))))"

text \<open>
  The part of \<open>_generate\<close> under \<open># Draw image\<close>. The two text sizes are measured as in
  the source; the positions computed from them are not part of the image data here.
\<close>

definition draw_texts ::
  "'r floats \<Rightarrow> ('f, 'o) fonts \<Rightarrow> pil_image \<Rightarrow> string \<Rightarrow> string \<Rightarrow> 'f \<Rightarrow> error + pil_image" where
  "draw_texts F L img top_text bottom_text font_path =
     (case int_truediv F (snd (img_size img)) 5 of
        Inl e \<Rightarrow> Inl e
      | Inr max_font_size \<Rightarrow>
     (case int_truediv F (snd (img_size img)) 12 of
        Inl e \<Rightarrow> Inl e
      | Inr min_font_size_single_line \<Rightarrow>
     (let max_text_len = fst (img_size img) - 20
      in case optimize_font_size_raising L font_path top_text max_font_size
                min_font_size_single_line max_text_len of
           Inl e \<Rightarrow> Inl e
         | Inr (top_font_size, top_text) \<Rightarrow>
     (case optimize_font_size_raising L font_path bottom_text max_font_size
                min_font_size_single_line max_text_len of
           Inl e \<Rightarrow> Inl e
         | Inr (bottom_font_size, bottom_text) \<Rightarrow>
     (case lib_truetype L font_path top_font_size of
        Inl e \<Rightarrow> Inl e
      | Inr top_font \<Rightarrow>
     (case lib_truetype L font_path bottom_font_size of
        Inl e \<Rightarrow> Inl e
      | Inr bottom_font \<Rightarrow>
     (case lib_multiline_textsize L top_font top_text of
        Inl e \<Rightarrow> Inl e
      | Inr top_text_size \<Rightarrow>
     (case lib_multiline_textsize L bottom_font bottom_text of
        Inl e \<Rightarrow> Inl e
      | Inr bottom_text_size \<Rightarrow>
          let img = draw_outlined_text img top_text top_font_size;
              img = draw_outlined_text img bottom_text bottom_font_size
          in Inr img))))))))"

text \<open>The part of \<open>_generate\<close> under \<open># Add watermark\<close>.\<close>

definition add_watermark ::
  "('f, 'o) fonts \<Rightarrow> pil_image \<Rightarrow> string \<Rightarrow> 'f \<Rightarrow> error + pil_image" where
  "add_watermark L img watermark watermark_font_path =
     (if watermark \<noteq> [] then
        (case lib_truetype L watermark_font_path 15 of
           Inl e \<Rightarrow> Inl e
         | Inr watermark_font \<Rightarrow> Inr (draw_outlined_text img watermark 15))
      else Inr img)"

text \<open>
  \<open>_generate\<close>, from the opened background image on (\<open>ImageFile.open\<close> has returned
  it). The arguments \<open>top\<close> and \<open>bottom\<close> are \<open>top_text\<close> and \<open>bottom_text\<close>, and the
  variable \<open>image\<close> is \<open>img\<close>.
\<close>

definition generate ::
  "'r floats \<Rightarrow> ('f, 'o) fonts \<Rightarrow> string \<Rightarrow> string \<Rightarrow> 'f \<Rightarrow> pil_image \<Rightarrow> int option
     \<Rightarrow> int option \<Rightarrow> string \<Rightarrow> 'f \<Rightarrow> error + pil_image" where
  "generate F L top_text bottom_text font_path background width height watermark
     watermark_font_path =
     (let background_image = convert_background background
      in case resize_background F background_image width height of
           Inl e \<Rightarrow> Inl e
         | Inr img \<Rightarrow>
        (case draw_texts F L img top_text bottom_text font_path of
           Inl e \<Rightarrow> Inl e
         | Inr img \<Rightarrow>
        (case (case (given width, given height) of
                 (Some w, Some h) \<Rightarrow> add_blurred_background img background_image w h
               | _ \<Rightarrow> Inr img) of
           Inl e \<Rightarrow> Inl e
         | Inr img \<Rightarrow> add_watermark L img watermark watermark_font_path)))"

text \<open>
  For evaluating \<open>generate\<close>: float arithmetic that computes exactly, on rationals,
  with \<open>int\<close> truncating towards zero. It agrees with Python's doubles wherever every
  quotient and product computed is itself a double, as each one is in the evaluations
  below.
\<close>

definition exact_floats :: "rat floats" where
  "exact_floats =
     \<lparr>fl_int_truediv = (\<lambda>a b. Inr (of_int a / of_int b)),
      fl_truediv = (\<lambda>a r. if r = 0 then Inl ZeroDivisionError else Inr (of_int a / r)),
      fl_mul = (\<lambda>a r. Inr (of_int a * r)),
      fl_less = (\<lambda>a r. of_int a < r),
      fl_int = (\<lambda>r. Inr (if r < 0 then \<lceil>r\<rceil> else \<lfloor>r\<rfloor>))\<rparr>"

text \<open>
  A font library for evaluating \<open>generate\<close>: a font loads at every size from 1 on, the
  font object is the size, every character is as wide and every line as high as the
  size.
\<close>

fun text_lines :: "string \<Rightarrow> string list" where
  "text_lines [] = [[]]"
| "text_lines (c # cs) =
     (if c = CHR 0x0A then [] # text_lines cs
      else (case text_lines cs of [] \<Rightarrow> [[c]] | l # ls \<Rightarrow> (c # l) # ls))"

definition linear_fonts :: "(unit, int) fonts" where
  "linear_fonts =
     \<lparr>lib_truetype = (\<lambda>font font_size. if font_size < 1 then Inl OSError else Inr font_size),
      lib_getsize = (\<lambda>fontobj t. Inr (fontobj * int (length t), fontobj)),
      lib_multiline_textsize =
        (\<lambda>fontobj t. Inr (fontobj * int (fold max (map length (text_lines t)) 0),
                          fontobj * int (length (text_lines t))))\<rparr>"

text \<open>A background for evaluating \<open>generate\<close>: an opaque JPEG photograph.\<close>

definition jpeg_600x300 :: pil_image where
  "jpeg_600x300 =
     \<lparr>img_mode = ''RGB'', img_format = Some ''JPEG'', img_size = (600, 300), img_texts = []\<rparr>"


section \<open>Properties of the text splitting\<close>

lemma split_loop_first:
  "sorted xs \<Longrightarrow> split_loop m (zip (map f xs) xs) = Some j \<Longrightarrow>
     j \<in> set xs \<and> f j = m \<and> (\<forall>i\<in>set xs. f i = m \<longrightarrow> j \<le> i)"
proof (induction xs)
  case Nil
  then show ?case by simp
next
  case (Cons x xs)
  show ?case
  proof (cases "f x = m")
    case True
    with Cons.prems show ?thesis by auto
  next
    case False
    with Cons.prems have "split_loop m (zip (map f xs) xs) = Some j" and "sorted xs"
      by simp_all
    with Cons.IH have "j \<in> set xs \<and> f j = m \<and> (\<forall>i\<in>set xs. f i = m \<longrightarrow> j \<le> i)"
      by simp
    with False show ?thesis by auto
  qed
qed

lemma split_loop_finds:
  "m \<in> f ` set xs \<Longrightarrow> \<exists>j. split_loop m (zip (map f xs) xs) = Some j"
  by (induction xs) auto

lemma set_space_indices:
  "set (space_indices text) = {i. i < length text \<and> text ! i = CHR '' ''}"
  by (auto simp: space_indices_def)

lemma sorted_space_indices: "sorted (space_indices text)"
  by (simp add: space_indices_def sorted_wrt_filter)

lemma interior_space_iff:
  "CHR '' '' \<in> set (butlast (tl text)) \<longleftrightarrow>
     (\<exists>k. 0 < k \<and> k + 1 < length text \<and> text ! k = CHR '' '')"
proof
  assume "CHR '' '' \<in> set (butlast (tl text))"
  then obtain i where i: "i < length (butlast (tl text))" "butlast (tl text) ! i = CHR '' ''"
    by (auto simp: in_set_conv_nth)
  then have "i + 2 < length text + 1" by simp
  moreover from i have "text ! (i + 1) = CHR '' ''"
    by (simp add: nth_butlast nth_tl)
  ultimately show "\<exists>k. 0 < k \<and> k + 1 < length text \<and> text ! k = CHR '' ''"
    using i by (intro exI[of _ "i + 1"]) auto
next
  assume "\<exists>k. 0 < k \<and> k + 1 < length text \<and> text ! k = CHR '' ''"
  then obtain k where k: "0 < k" "k + 1 < length text" "text ! k = CHR '' ''" by blast
  then have "k - 1 < length (butlast (tl text))" by simp
  moreover from k have "butlast (tl text) ! (k - 1) = CHR '' ''"
    by (simp add: nth_butlast nth_tl)
  ultimately show "CHR '' '' \<in> set (butlast (tl text))"
    by (metis nth_mem)
qed

lemma min_list_map_least:
  assumes "xs \<noteq> []"
  shows "min_list (map f xs) \<in> f ` set xs" and "\<forall>i\<in>set xs. min_list (map f xs) \<le> (f i :: int)"
proof -
  from assms have eq: "min_list (map f xs) = Min (set (map f xs))"
    by (simp add: min_list_Min)
  from assms have "Min (set (map f xs)) \<in> set (map f xs)"
    by (intro Min_in) simp_all
  with eq show "min_list (map f xs) \<in> f ` set xs" by simp
  show "\<forall>i\<in>set xs. min_list (map f xs) \<le> f i"
    unfolding eq by (auto intro: Min_le)
qed

lemma split_loop_choice:
  assumes k: "0 < k" "k + 1 < length text" "text ! k = CHR '' ''"
  obtains j where
    "split_loop (min_list (space_proximities text))
       (zip (space_proximities text) (space_indices text)) = Some j"
    "0 < j" "j + 1 < length text" "text ! j = CHR '' ''"
    "\<forall>i. i < length text \<and> text ! i = CHR '' '' \<longrightarrow>
       proximity text j \<le> proximity text i \<and> (proximity text i = proximity text j \<longrightarrow> j \<le> i)"
proof -
  let ?S = "space_indices text"
  let ?f = "proximity text"
  let ?m = "min_list (map ?f ?S)"
  have P: "space_proximities text = map ?f ?S"
    by (simp add: space_proximities_def proximity_def)
  from k have kS: "k \<in> set ?S" by (simp add: set_space_indices)
  then have ne: "?S \<noteq> []" by auto
  from min_list_map_least(1)[OF ne, of ?f] obtain j where
    j: "split_loop ?m (zip (map ?f ?S) ?S) = Some j"
    using split_loop_finds[of ?m ?f ?S] by blast
  from split_loop_first[OF sorted_space_indices j]
  have jS: "j \<in> set ?S" and fj: "?f j = ?m" and first: "\<forall>i\<in>set ?S. ?f i = ?m \<longrightarrow> j \<le> i"
    by simp_all
  from min_list_map_least(2)[OF ne, of ?f] have least: "\<forall>i\<in>set ?S. ?m \<le> ?f i" .
  from jS have jlt: "j < length text" and jsp: "text ! j = CHR '' ''"
    by (simp_all add: set_space_indices)
  from least kS fj have jk: "?f j \<le> ?f k" by simp
  have "j \<noteq> 0"
  proof
    assume "j = 0"
    with jk k show False by (simp add: proximity_def; linarith)
  qed
  moreover have "j + 1 \<noteq> length text"
  proof
    assume e: "j + 1 = length text"
    with k have "?f k \<le> ?f j" by (simp add: proximity_def; linarith)
    with jk have "?f k = ?m" using fj by simp
    with first kS have "j \<le> k" by simp
    with e k show False by simp
  qed
  ultimately have "0 < j" "j + 1 < length text" using jlt by simp_all
  moreover have "\<forall>i. i < length text \<and> text ! i = CHR '' '' \<longrightarrow>
       ?f j \<le> ?f i \<and> (?f i = ?f j \<longrightarrow> j \<le> i)"
    using least first fj by (simp add: set_space_indices)
  ultimately show ?thesis using that j jsp P by simp
qed


lemma split_text_at:
  assumes "interior_space text k"
  obtains j where "split_text text = [take j text, drop (j + 1) text]"
    "interior_space text j"
    "\<forall>i. i < length text \<and> text ! i = CHR '' '' \<longrightarrow>
       proximity text j \<le> proximity text i \<and> (proximity text i = proximity text j \<longrightarrow> j \<le> i)"
proof -
  from assms have k: "0 < k" "k + 1 < length text" "text ! k = CHR '' ''"
    by (simp_all add: interior_space_def)
  then have c: "3 \<le> length text \<and> CHR '' '' \<in> set (butlast (tl text))"
    unfolding interior_space_iff by auto
  from split_loop_choice[OF k] obtain j where j:
    "split_loop (min_list (space_proximities text))
       (zip (space_proximities text) (space_indices text)) = Some j"
    "0 < j" "j + 1 < length text" "text ! j = CHR '' ''"
    "\<forall>i. i < length text \<and> text ! i = CHR '' '' \<longrightarrow>
       proximity text j \<le> proximity text i \<and> (proximity text i = proximity text j \<longrightarrow> j \<le> i)"
    by blast
  from c j(1) have "split_text text = [take j text, drop (j + 1) text]"
    by (simp add: split_text_def)
  with j that show ?thesis by (simp add: interior_space_def)
qed

lemma split_text_unsplittable:
  "\<not> (3 \<le> length text \<and> (\<exists>k. interior_space text k)) \<Longrightarrow> split_text text = [text]"
  unfolding interior_space_def interior_space_iff[symmetric] by (auto simp: split_text_def)

text \<open>
  C1. Every string of length at least 3 with an interior space is split by \<open>_split\<close>
  into exactly two strings, both non-empty, and the first one, a single space and the
  second one together are the string again.
\<close>

theorem split_two_halves:
  assumes "3 \<le> length s" and "\<exists>k. interior_space s k"
  shows "\<exists>a b. split_text s = [a, b] \<and> a \<noteq> [] \<and> b \<noteq> [] \<and> a @ '' '' @ b = s"
proof -
  from assms(2) obtain k where "interior_space s k" ..
  from split_text_at[OF this] obtain j where
    j: "split_text s = [take j s, drop (j + 1) s]" "interior_space s j" by blast
  from j(2) have r: "0 < j" "j + 1 < length s" "s ! j = CHR '' ''"
    by (simp_all add: interior_space_def)
  then have "take j s @ s ! j # drop (Suc j) s = s"
    by (intro id_take_nth_drop[symmetric]) simp
  with r have "take j s @ '' '' @ drop (j + 1) s = s" by simp
  moreover from r have "take j s \<noteq> []" "drop (j + 1) s \<noteq> []" by auto
  ultimately show ?thesis using j(1) by blast
qed

theorem split_two_halves_witness:
  "3 \<le> length ''Hello, world!'' \<and> interior_space ''Hello, world!'' 6 \<and>
   split_text ''Hello, world!'' = [''Hello,'', ''world!''] \<and>
   (\<exists>a b. split_text ''Hello, world!'' = [a, b] \<and> a \<noteq> [] \<and> b \<noteq> [] \<and>
      a @ '' '' @ b = ''Hello, world!'')"
proof -
  have h1: "3 \<le> length ''Hello, world!''" by simp
  have h2: "interior_space ''Hello, world!'' 6" by (simp add: interior_space_def)
  have h3: "split_text ''Hello, world!'' = [''Hello,'', ''world!'']" by code_simp
  from h2 have "\<exists>k. interior_space ''Hello, world!'' k" ..
  from split_two_halves[OF h1 this] h1 h2 h3 show ?thesis by blast
qed

text \<open>
  C6. For a string of length at least 3 with an interior space, \<open>_split\<close> cuts at an
  interior space \<open>j\<close> that is closest to the midpoint \<open>len // 2\<close> among the interior
  spaces and the lowest index among those equally close, and returns the text before
  \<open>j\<close> and the text after \<open>j\<close>, so the space itself is in neither half. For any other
  string the result is the string alone.
\<close>

theorem split_at_closest_interior_space:
  "(3 \<le> length s \<and> (\<exists>k. interior_space s k) \<longrightarrow>
      (\<exists>j. interior_space s j \<and>
           (\<forall>i. interior_space s i \<longrightarrow>
              proximity s j \<le> proximity s i \<and> (proximity s i = proximity s j \<longrightarrow> j \<le> i)) \<and>
           split_text s = [take j s, drop (j + 1) s])) \<and>
   (\<not> (3 \<le> length s \<and> (\<exists>k. interior_space s k)) \<longrightarrow> split_text s = [s])"
proof (intro conjI impI)
  assume "3 \<le> length s \<and> (\<exists>k. interior_space s k)"
  then obtain k where "interior_space s k" by blast
  from split_text_at[OF this] obtain j where j:
    "split_text s = [take j s, drop (j + 1) s]" "interior_space s j"
    "\<forall>i. i < length s \<and> s ! i = CHR '' '' \<longrightarrow>
       proximity s j \<le> proximity s i \<and> (proximity s i = proximity s j \<longrightarrow> j \<le> i)"
    by blast
  from j(3) have "\<forall>i. interior_space s i \<longrightarrow>
      proximity s j \<le> proximity s i \<and> (proximity s i = proximity s j \<longrightarrow> j \<le> i)"
    by (simp add: interior_space_def)
  with j(1,2) show "\<exists>j. interior_space s j \<and>
           (\<forall>i. interior_space s i \<longrightarrow>
              proximity s j \<le> proximity s i \<and> (proximity s i = proximity s j \<longrightarrow> j \<le> i)) \<and>
           split_text s = [take j s, drop (j + 1) s]" by blast
next
  assume "\<not> (3 \<le> length s \<and> (\<exists>k. interior_space s k))"
  then show "split_text s = [s]" by (rule split_text_unsplittable)
qed

theorem split_at_closest_interior_space_witness:
  "interior_space ''a b c'' 1 \<and>
   split_text ''a b c'' = [''a'', ''b c''] \<and>
   (\<exists>j. interior_space ''a b c'' j \<and>
        (\<forall>i. interior_space ''a b c'' i \<longrightarrow>
           proximity ''a b c'' j \<le> proximity ''a b c'' i \<and>
           (proximity ''a b c'' i = proximity ''a b c'' j \<longrightarrow> j \<le> i)) \<and>
        split_text ''a b c'' = [take j ''a b c'', drop (j + 1) ''a b c'']) \<and>
   \<not> 3 \<le> length ''ab'' \<and> split_text ''ab'' = [''ab'']"
proof -
  have h: "interior_space ''a b c'' 1" by (simp add: interior_space_def)
  have l: "3 \<le> length ''a b c''" by simp
  have e: "split_text ''a b c'' = [''a'', ''b c'']" by code_simp
  have n: "\<not> 3 \<le> length ''ab''" by simp
  from h l split_at_closest_interior_space[of "''a b c''"]
  have "\<exists>j. interior_space ''a b c'' j \<and>
        (\<forall>i. interior_space ''a b c'' i \<longrightarrow>
           proximity ''a b c'' j \<le> proximity ''a b c'' i \<and>
           (proximity ''a b c'' i = proximity ''a b c'' j \<longrightarrow> j \<le> i)) \<and>
        split_text ''a b c'' = [take j ''a b c'', drop (j + 1) ''a b c'']"
    by blast
  moreover from n split_at_closest_interior_space[of "''ab''"]
  have "split_text ''ab'' = [''ab'']" by blast
  ultimately show ?thesis using h e n by blast
qed

text \<open>The examples of the docstring of \<open>_split\<close>.\<close>

lemma split_text_docstring:
  "split_text ''Hello, world!'' = [''Hello,'', ''world!'']"
  "split_text ''This is a phrase that can be split.'' = [''This is a phrase'', ''that can be split.'']"
  "split_text ''This_is_a_phrase_that_can_not_be_split.''
     = [''This_is_a_phrase_that_can_not_be_split.'']"
  by code_simp+

section \<open>Properties of the font size search\<close>


lemma maximize_loop_le: "maximize_loop getsize fnt line max_size s \<le> s"
proof (induction getsize fnt line max_size s rule: maximize_loop.induct)
  case (1 getsize fnt line max_size font_size)
  show ?case
  proof (cases "fst (getsize fnt font_size line) > max_size \<and> font_size > 1")
    case True
    with "1.IH" show ?thesis by (subst maximize_loop.simps) simp
  next
    case False
    then show ?thesis by (subst maximize_loop.simps) auto
  qed
qed

lemma maximize_loop_small: "s \<le> 1 \<Longrightarrow> maximize_loop getsize fnt line max_size s = s"
  by (subst maximize_loop.simps) simp

lemma maximize_loop_fits:
  "fst (getsize fnt s line) \<le> max_size \<Longrightarrow> maximize_loop getsize fnt line max_size s = s"
  by (subst maximize_loop.simps) simp

lemma maximize_loop_lower:
  "x \<le> s \<Longrightarrow> \<not> (fst (getsize fnt x line) > max_size \<and> x > 1) \<Longrightarrow>
     x \<le> maximize_loop getsize fnt line max_size s"
proof (induction getsize fnt line max_size s rule: maximize_loop.induct)
  case (1 getsize fnt line max_size font_size)
  show ?case
  proof (cases "fst (getsize fnt font_size line) > max_size \<and> font_size > 1")
    case True
    with "1.prems" have "x \<noteq> font_size" by auto
    with "1.prems" have "x \<le> font_size - 1" by simp
    with "1.IH" True "1.prems" have "x \<le> maximize_loop getsize fnt line max_size (font_size - 1)"
      by simp
    with True show ?thesis by (subst maximize_loop.simps) simp
  next
    case False
    with "1.prems" show ?thesis by (subst maximize_loop.simps) auto
  qed
qed

lemma maximize_font_size_ge1_iff:
  "1 \<le> maximize_font_size getsize fnt line max_size \<longleftrightarrow> 1 \<le> max_size"
proof
  assume "1 \<le> maximize_font_size getsize fnt line max_size"
  with maximize_loop_le[of getsize fnt line max_size max_size] show "1 \<le> max_size"
    by (simp add: maximize_font_size_def)
next
  assume "1 \<le> max_size"
  then show "1 \<le> maximize_font_size getsize fnt line max_size"
    unfolding maximize_font_size_def by (intro maximize_loop_lower) simp_all
qed


lemma fold_min_ge1_iff:
  "(c::int) \<le> fold (\<lambda>p a. min (F p) a) ps a \<longleftrightarrow> c \<le> a \<and> (\<forall>p\<in>set ps. c \<le> F p)"
  by (induction ps arbitrary: a) auto


lemma length_split_text: "length (split_text line) = 1 \<or> length (split_text line) = 2"
  by (simp add: split_text_def split: option.splits)

lemma length_phrases_of:
  "length (phrases_of getsize fnt line m L) = 1 \<or> length (phrases_of getsize fnt line m L) = 2"
  using length_split_text[of line] by (simp add: phrases_of_def Let_def)

lemma phrases_of_empty: "phrases_of getsize fnt [] m L = [[]]"
  by (simp add: phrases_of_def Let_def split_text_def)

text \<open>
  C3 as stated fails: no clamp is applied to the candidate size
  \<open>max_font_size // len(phrases)\<close>. With \<open>max_font_size = 0\<close> the returned size is 0.
\<close>

theorem optimize_font_size_below_one:
  "optimize_font_size linear_getsize () ''a'' 0 10 100 = (0, ''a'') \<and>
   \<not> 1 \<le> fst (optimize_font_size linear_getsize () ''a'' 0 10 100)"
  by code_simp

text \<open>
  C3, amended. The font size returned by \<open>_optimize_font_size\<close> is at least 1 exactly
  when \<open>max_text_len\<close> is at least 1 and \<open>max_font_size\<close> is at least the number of
  phrases (1 or 2), that is, when the candidate \<open>max_font_size // len(phrases)\<close> is at
  least 1. Only the search of \<open>_maximize_font_size\<close> stops at 1.
\<close>

theorem optimize_font_size_at_least_one:
  "1 \<le> fst (optimize_font_size getsize fnt line max_font_size min_font_size max_text_len)
     \<longleftrightarrow> 1 \<le> max_text_len \<and>
          int (length (phrases_of getsize fnt line min_font_size max_text_len)) \<le> max_font_size"
proof -
  let ?ps = "phrases_of getsize fnt line min_font_size max_text_len"
  from length_phrases_of[of getsize fnt line min_font_size max_text_len]
  have n: "0 < int (length ?ps)" and ne: "?ps \<noteq> []" by auto
  from n have d: "1 \<le> max_font_size div int (length ?ps) \<longleftrightarrow> int (length ?ps) \<le> max_font_size"
    using pos_imp_zdiv_pos_iff[of "int (length ?ps)" max_font_size] by linarith
  from ne obtain p where "p \<in> set ?ps" by (cases ?ps) auto
  then have "(\<forall>p\<in>set ?ps. 1 \<le> maximize_font_size getsize fnt p max_text_len) \<longleftrightarrow> 1 \<le> max_text_len"
    by (auto simp: maximize_font_size_ge1_iff)
  with d show ?thesis
    by (simp add: optimize_font_size_def Let_def fold_min_ge1_iff) blast
qed

theorem optimize_font_size_at_least_one_witness:
  "1 \<le> fst (optimize_font_size linear_getsize () ''aaaa bbbb'' 100 10 89) \<and>
   (1::int) \<le> 89 \<and>
   int (length (phrases_of linear_getsize () ''aaaa bbbb'' 10 89)) \<le> 100 \<and>
   \<not> 1 \<le> fst (optimize_font_size linear_getsize () ''aaaa bbbb'' 1 10 89)"
proof -
  have p: "phrases_of linear_getsize () ''aaaa bbbb'' 10 89 = [''aaaa'', ''bbbb'']"
    by code_simp
  from p optimize_font_size_at_least_one[of linear_getsize "()" "''aaaa bbbb''" 100 10 89]
    optimize_font_size_at_least_one[of linear_getsize "()" "''aaaa bbbb''" 1 10 89]
  show ?thesis by simp
qed

text \<open>
  C7 as stated fails: the candidate \<open>max_font_size\<close> is still combined, by \<open>min\<close>, with
  the result of \<open>_maximize_font_size\<close>, which never exceeds \<open>max_text_len\<close>.
\<close>

theorem optimize_font_size_empty_text_capped:
  "optimize_font_size linear_getsize () [] 200 10 80 = (80, []) \<and>
   fst (optimize_font_size linear_getsize () [] 200 10 80) \<noteq> 200"
  by code_simp

text \<open>
  C7, amended. For the empty text, when its width measured at font size
  \<open>max_text_len\<close> is at most \<open>max_text_len\<close> (or \<open>max_text_len\<close> is at most 1), the loop of
  \<open>_maximize_font_size\<close> does not run and \<open>_optimize_font_size\<close> returns
  \<open>min(max_text_len, max_font_size)\<close> with the empty text, for every font and every
  \<open>min_font_size\<close>: the candidate \<open>max_font_size\<close> is returned when it is at most
  \<open>max_text_len\<close>.
\<close>

theorem optimize_font_size_empty_text:
  assumes "fst (getsize fnt max_text_len []) \<le> max_text_len \<or> max_text_len \<le> 1"
  shows "optimize_font_size getsize fnt [] max_font_size min_font_size max_text_len
           = (min max_text_len max_font_size, [])"
proof -
  from assms have "maximize_font_size getsize fnt [] max_text_len = max_text_len"
    unfolding maximize_font_size_def
    by (auto intro: maximize_loop_small maximize_loop_fits)
  then show ?thesis
    by (simp add: optimize_font_size_def Let_def phrases_of_empty)
qed

theorem optimize_font_size_empty_text_witness:
  "fst (linear_getsize () 80 []) \<le> 80 \<and>
   optimize_font_size linear_getsize () [] 200 10 80 = (min 80 200, []) \<and>
   optimize_font_size linear_getsize () [] 60 10 80 = (60, [])"
proof -
  have h: "fst (linear_getsize () 80 []) \<le> 80 \<or> (80::int) \<le> 1"
    by (simp add: linear_getsize_def)
  from h optimize_font_size_empty_text[of linear_getsize "()" 80 200 10]
    optimize_font_size_empty_text[of linear_getsize "()" 80 60 10]
  show ?thesis by (simp add: linear_getsize_def)
qed





section \<open>Properties of the path\<close>

lemma fold_enumerate_or_empty:
  "fold (\<lambda>(index, v) sha. U sha (E (format_index_value index (or_empty v)))) (enumerate n vs) s
     = fold (\<lambda>(index, v) sha. U sha (E (format_index_value index v)))
         (enumerate n (map or_empty vs)) s"
  by (induction vs arbitrary: n s) simp_all

lemma hash_or_empty:
  "hash H vs =
     md5_hexdigest H
       (fold (\<lambda>(index, v) sha. md5_update H sha (encode_utf8 H (format_index_value index v)))
          (enumerate 0 (map or_empty vs)) (md5_new H))"
  by (simp add: hash_def fold_enumerate_or_empty)

lemma truthy_or_empty: "truthy (or_empty v) = truthy v"
  by (simp add: or_empty_def)

lemma py_str_or_empty: "py_str (or_empty v) = field_value v"
  by (simp add: or_empty_def field_value_def)

lemma str_nat_digits:
  "str_nat 0 = ''0''" "str_nat (Suc 0) = ''1''" "str_nat (Suc (Suc 0)) = ''2''"
  "str_nat (Suc (Suc (Suc 0))) = ''3''" "str_nat (Suc (Suc (Suc (Suc 0)))) = ''4''"
  by (simp_all add: str_nat.simps digit_char_def)

lemma hash_five_fields:
  "hash H [a, b, c, d, e] =
     md5_hexdigest H
       (fold (\<lambda>s sha. md5_update H sha (encode_utf8 H s))
          [''0:'' @ field_value a, ''1:'' @ field_value b, ''2:'' @ field_value c,
           ''3:'' @ field_value d, ''4:'' @ field_value e]
          (md5_new H))"
  by (simp add: hash_def format_index_value_def py_str_or_empty str_nat_digits)

lemma os_path_join_plain:
  assumes "r \<noteq> []" "last r \<noteq> CHR ''/''"
    and "k \<noteq> []" "hd k \<noteq> CHR ''/''" "last k \<noteq> CHR ''/''"
    and "t = [] \<or> hd t \<noteq> CHR ''/''"
  shows "os_path_join r [k, t] = r @ ''/'' @ k @ ''/'' @ t"
  using assms by (auto simp: os_path_join_def join_step_def)

text \<open>
  C2. With a non-empty root, \<open>Image.path\<close> is the joined path of root, template key and
  text path followed by \<open>.img\<close>, with no \<open>#\<close> suffix, exactly when each of style, font,
  watermark, width and height is empty or absent (falsy: \<open>None\<close>, the empty string, 0);
  otherwise it is that joined path, \<open>#\<close>, the digest of the five fields in this order,
  each fed to the digest as its index, a colon and its value, with an empty value for an
  empty or absent field, and \<open>.img\<close>. The joined path is \<open>root/templateKey/textPath\<close>
  for components that carry no separator of their own at the joints.
\<close>

theorem path_key:
  assumes "self_root self = Some r" and "r \<noteq> []"
  shows "path H self =
     Some (if \<not> truthy (self_style self) \<and> \<not> truthy (self_font self) \<and>
              \<not> truthy (self_watermark self) \<and> \<not> truthy (self_width self) \<and>
              \<not> truthy (self_height self)
           then os_path_join r [self_template_key self, self_text_path self] @ ''.img''
           else os_path_join r [self_template_key self, self_text_path self] @ ''#'' @
                md5_hexdigest H
                  (fold (\<lambda>s sha. md5_update H sha (encode_utf8 H s))
                     [''0:'' @ field_value (self_style self),
                      ''1:'' @ field_value (self_font self),
                      ''2:'' @ field_value (self_watermark self),
                      ''3:'' @ field_value (self_width self),
                      ''4:'' @ field_value (self_height self)]
                     (md5_new H)) @ ''.img'')
   \<and> (path H self = Some (os_path_join r [self_template_key self, self_text_path self] @ ''.img'')
        \<longleftrightarrow> \<not> truthy (self_style self) \<and> \<not> truthy (self_font self) \<and>
              \<not> truthy (self_watermark self) \<and> \<not> truthy (self_width self) \<and>
              \<not> truthy (self_height self))
   \<and> (last r \<noteq> CHR ''/'' \<and> self_template_key self \<noteq> [] \<and>
        hd (self_template_key self) \<noteq> CHR ''/'' \<and> last (self_template_key self) \<noteq> CHR ''/'' \<and>
        (self_text_path self = [] \<or> hd (self_text_path self) \<noteq> CHR ''/'') \<longrightarrow>
      os_path_join r [self_template_key self, self_text_path self]
        = r @ ''/'' @ self_template_key self @ ''/'' @ self_text_path self)"
proof (intro conjI impI)
  show p: "path H self =
     Some (if \<not> truthy (self_style self) \<and> \<not> truthy (self_font self) \<and>
              \<not> truthy (self_watermark self) \<and> \<not> truthy (self_width self) \<and>
              \<not> truthy (self_height self)
           then os_path_join r [self_template_key self, self_text_path self] @ ''.img''
           else os_path_join r [self_template_key self, self_text_path self] @ ''#'' @
                md5_hexdigest H
                  (fold (\<lambda>s sha. md5_update H sha (encode_utf8 H s))
                     [''0:'' @ field_value (self_style self),
                      ''1:'' @ field_value (self_font self),
                      ''2:'' @ field_value (self_watermark self),
                      ''3:'' @ field_value (self_width self),
                      ''4:'' @ field_value (self_height self)]
                     (md5_new H)) @ ''.img'')"
    using assms unfolding path_def Let_def hash_five_fields by simp
  show "path H self = Some (os_path_join r [self_template_key self, self_text_path self] @ ''.img'')
        \<longleftrightarrow> \<not> truthy (self_style self) \<and> \<not> truthy (self_font self) \<and>
              \<not> truthy (self_watermark self) \<and> \<not> truthy (self_width self) \<and>
              \<not> truthy (self_height self)"
    unfolding p by simp
next
  assume "last r \<noteq> CHR ''/'' \<and> self_template_key self \<noteq> [] \<and>
        hd (self_template_key self) \<noteq> CHR ''/'' \<and> last (self_template_key self) \<noteq> CHR ''/'' \<and>
        (self_text_path self = [] \<or> hd (self_text_path self) \<noteq> CHR ''/'')"
  with assms(2) show "os_path_join r [self_template_key self, self_text_path self]
        = r @ ''/'' @ self_template_key self @ ''/'' @ self_text_path self"
    by (intro os_path_join_plain) simp_all
qed

theorem path_key_witness:
  "path plain_digest
     \<lparr>self_root = Some ''images'', self_template_key = ''iw'', self_style = PNone,
      self_text_path = ''hello/world'', self_font = PNone, self_width = PInt 500,
      self_height = PNone, self_watermark = PStr []\<rparr>
     = Some ''images/iw/hello/world#0:1:2:3:5004:.img'' \<and>
   path plain_digest
     \<lparr>self_root = Some ''images'', self_template_key = ''iw'', self_style = PNone,
      self_text_path = ''hello/world'', self_font = PNone, self_width = PNone,
      self_height = PNone, self_watermark = PStr []\<rparr>
     = Some ''images/iw/hello/world.img''"
proof -
  let ?a = "\<lparr>self_root = Some ''images'', self_template_key = ''iw'', self_style = PNone,
      self_text_path = ''hello/world'', self_font = PNone, self_width = PInt 500,
      self_height = PNone, self_watermark = PStr []\<rparr>"
  let ?b = "\<lparr>self_root = Some ''images'', self_template_key = ''iw'', self_style = PNone,
      self_text_path = ''hello/world'', self_font = PNone, self_width = PNone,
      self_height = PNone, self_watermark = PStr []\<rparr>"
  have ra: "self_root ?a = Some ''images''" and rb: "self_root ?b = Some ''images''"
    and ne: "''images'' \<noteq> []"
    by simp_all
  have s: "str_int 500 = ''500''" by code_simp
  from path_key[OF ra ne, of plain_digest] path_key[OF rb ne, of plain_digest]
  show ?thesis
    by (simp add: plain_digest_def field_value_def s os_path_join_def join_step_def)
qed

text \<open>
  C10. \<open>Image.hash\<close> depends only on the list of the values \<open>value or ""\<close>: two lists
  of style fields that agree element by element after each falsy value is replaced by
  the empty string have the same digest. In particular \<open>style=None\<close> and \<open>style=""\<close>,
  all else equal, give the same path.
\<close>

theorem hash_depends_on_or_empty:
  "(map or_empty vs = map or_empty ws \<longrightarrow> hash H vs = hash H ws) \<and>
   path H (self\<lparr>self_style := PNone\<rparr>) = path H (self\<lparr>self_style := PStr []\<rparr>)"
proof
  show "map or_empty vs = map or_empty ws \<longrightarrow> hash H vs = hash H ws"
    by (simp add: hash_or_empty)
  have "hash H [PNone, b, c, d, e] = hash H [PStr [], b, c, d, e]" for b c d e
    by (simp add: hash_or_empty or_empty_def)
  then show "path H (self\<lparr>self_style := PNone\<rparr>) = path H (self\<lparr>self_style := PStr []\<rparr>)"
    by (simp add: path_def Let_def split: option.splits)
qed

theorem hash_depends_on_or_empty_witness:
  "map or_empty [PNone, PInt 0, PStr ''x''] = map or_empty [PStr [], PBool False, PStr ''x''] \<and>
   hash plain_digest [PNone, PInt 0, PStr ''x''] = hash plain_digest [PStr [], PBool False, PStr ''x''] \<and>
   hash plain_digest [PNone, PInt 0, PStr ''x''] = ''0:1:2:x''"
proof -
  have h: "map or_empty [PNone, PInt 0, PStr ''x''] = map or_empty [PStr [], PBool False, PStr ''x'']"
    by (simp add: or_empty_def)
  have e: "hash plain_digest [PNone, PInt 0, PStr ''x''] = ''0:1:2:x''"
    by code_simp
  from h e hash_depends_on_or_empty[of "[PNone, PInt 0, PStr ''x'']"
      "[PStr [], PBool False, PStr ''x'']" plain_digest]
  show ?thesis by blast
qed

section \<open>Properties of the generated image\<close>

text \<open>
  What the font size search returns when the font library raises nothing is what the
  search on the measure \<open>measured\<close> returns.
\<close>

lemma maximize_loop_raising_value:
  "maximize_loop_raising L fnt line max_size s = Inr r \<Longrightarrow>
     r = maximize_loop (measured L) fnt line max_size s"
proof (induction L fnt line max_size s rule: maximize_loop_raising.induct)
  case (1 L fnt line max_size font_size)
  from "1.prems" obtain fontobj text_size where
    f: "lib_truetype L fnt font_size = Inr fontobj" and
    g: "lib_getsize L fontobj line = Inr text_size"
    by (subst (asm) maximize_loop_raising.simps) (auto split: sum.splits)
  then have m: "measured L fnt font_size line = text_size"
    by (simp add: measured_def)
  show ?case
  proof (cases "fst text_size > max_size \<and> font_size > 1")
    case True
    with "1.prems" f g have "maximize_loop_raising L fnt line max_size (font_size - 1) = Inr r"
      by (subst (asm) maximize_loop_raising.simps) simp
    with "1.IH"[OF f g] True have "r = maximize_loop (measured L) fnt line max_size (font_size - 1)"
      by simp
    with True m show ?thesis by (subst maximize_loop.simps) simp
  next
    case False
    with "1.prems" f g have "r = font_size"
      by (subst (asm) maximize_loop_raising.simps) auto
    with False m show ?thesis by (subst maximize_loop.simps) auto
  qed
qed

lemma phrases_loop_raising_value:
  "phrases_loop_raising L fnt max_text_len phrases s = Inr r \<Longrightarrow>
     r = fold (\<lambda>phrase font_size.
                 min (maximize_font_size (measured L) fnt phrase max_text_len) font_size)
           phrases s"
proof (induction phrases arbitrary: s)
  case Nil
  then show ?case by simp
next
  case (Cons phrase phrases)
  from Cons.prems obtain m where
    m: "maximize_font_size_raising L fnt phrase max_text_len = Inr m" and
    r: "phrases_loop_raising L fnt max_text_len phrases (min m s) = Inr r"
    by (auto split: sum.splits)
  from m have "m = maximize_font_size (measured L) fnt phrase max_text_len"
    unfolding maximize_font_size_raising_def maximize_font_size_def
    by (rule maximize_loop_raising_value)
  with Cons.IH[OF r] show ?case by simp
qed

lemma optimize_font_size_raising_value:
  assumes "optimize_font_size_raising L fnt line max_font_size min_font_size max_text_len = Inr r"
  shows "r = optimize_font_size (measured L) fnt line max_font_size min_font_size max_text_len"
proof -
  from assms obtain fontobj text_size where
    f: "lib_truetype L fnt min_font_size = Inr fontobj" and
    g: "lib_getsize L fontobj line = Inr text_size"
    by (auto simp: optimize_font_size_raising_def split: sum.splits)
  then have m: "measured L fnt min_font_size line = text_size"
    by (simp add: measured_def)
  let ?ps = "if fst text_size > max_text_len then split_text line else [line]"
  from m have p: "phrases_of (measured L) fnt line min_font_size max_text_len = ?ps"
    by (simp add: phrases_of_def)
  from assms f g obtain s where
    s: "phrases_loop_raising L fnt max_text_len ?ps (max_font_size div int (length ?ps)) = Inr s"
    and r: "r = (s, join_lines ?ps)"
    by (auto simp: optimize_font_size_raising_def Let_def split: sum.splits)
  from phrases_loop_raising_value[OF s] r p show ?thesis
    by (simp add: optimize_font_size_def Let_def)
qed

lemma draw_outlined_text_keeps [simp]:
  "img_format (draw_outlined_text im c n) = img_format im"
  "img_size (draw_outlined_text im c n) = img_size im"
  "img_mode (draw_outlined_text im c n) = img_mode im"
  by (simp_all add: draw_outlined_text_def Let_def)

lemma resize_background_Inr:
  assumes "resize_background F bg width height = Inr im"
  shows "img_format im = Some ''PNG''"
  using assms by (auto simp: resize_background_def resize_def split: sum.splits if_splits)

lemma draw_texts_Inr:
  assumes "draw_texts F L im t b fnt = Inr im'"
  shows "img_format im' = img_format im" and "img_size im' = img_size im"
  using assms by (auto simp: draw_texts_def Let_def split: sum.splits prod.splits)

lemma add_watermark_Inr:
  assumes "add_watermark L im wm wfnt = Inr im'"
  shows "img_format im' = img_format im" and "img_size im' = img_size im"
  using assms by (auto simp: add_watermark_def split: sum.splits if_splits)

lemma add_blurred_background_Inr:
  assumes "add_blurred_background fg bg w h = Inr im"
  shows "img_format im = Some ''PNG''" and "img_size im = (w, h)"
  using assms
  by (auto simp: add_blurred_background_def Let_def new_image_def resize_def paste_def
        point_def gaussian_blur_def split: prod.splits sum.splits if_splits)

lemma add_blurred_background_negative:
  assumes "w < 0 \<or> h < 0"
  shows "isl (add_blurred_background fg bg w h)"
  using assms
  by (auto simp: add_blurred_background_def Let_def new_image_def split: prod.splits)

lemma generate_stages:
  assumes "generate F L t b fnt bg width height wm wfnt = Inr im"
  obtains resized drawn padded where
    "resize_background F (convert_background bg) width height = Inr resized"
    "draw_texts F L resized t b fnt = Inr drawn"
    "(case (given width, given height) of
        (Some w, Some h) \<Rightarrow> add_blurred_background drawn (convert_background bg) w h
      | _ \<Rightarrow> Inr drawn) = Inr padded"
    "add_watermark L padded wm wfnt = Inr im"
  using assms unfolding generate_def Let_def by (auto split: sum.splits)

lemma generate_format:
  assumes "generate F L t b fnt bg width height wm wfnt = Inr im"
  shows "img_format im = Some ''PNG''"
proof -
  from assms obtain resized drawn padded where
    s: "resize_background F (convert_background bg) width height = Inr resized"
       "draw_texts F L resized t b fnt = Inr drawn"
       "(case (given width, given height) of
          (Some w, Some h) \<Rightarrow> add_blurred_background drawn (convert_background bg) w h
        | _ \<Rightarrow> Inr drawn) = Inr padded"
       "add_watermark L padded wm wfnt = Inr im"
    by (rule generate_stages)
  from s(1,2) have "img_format drawn = Some ''PNG''"
    by (simp add: resize_background_Inr draw_texts_Inr(1))
  with s(3) have "img_format padded = Some ''PNG''"
    by (auto split: option.splits dest: add_blurred_background_Inr(1))
  with s(4) show ?thesis by (simp add: add_watermark_Inr(1))
qed

lemma generate_size:
  assumes "generate F L t b fnt bg (Some w) (Some h) wm wfnt = Inr im" "w \<noteq> 0" "h \<noteq> 0"
  shows "img_size im = (w, h)"
proof -
  from assms(1) obtain resized drawn padded where
    s: "(case (given (Some w), given (Some h)) of
          (Some w, Some h) \<Rightarrow> add_blurred_background drawn (convert_background bg) w h
        | _ \<Rightarrow> Inr drawn) = Inr padded"
       "add_watermark L padded wm wfnt = Inr im"
    by (rule generate_stages)
  from s(1) assms(2,3) have "img_size padded = (w, h)"
    by (auto dest: add_blurred_background_Inr(2))
  with s(2) show ?thesis by (simp add: add_watermark_Inr(2))
qed

lemma given_zero: "given (Some 0) = None"
  by simp

lemma dimensions_of_zero:
  "dimensions_of F r (Some 0) height = dimensions_of F r None height"
  "dimensions_of F r width (Some 0) = dimensions_of F r width None"
  by (simp_all add: dimensions_of_def)

lemma generate_zero_is_absent:
  "generate F L t b fnt bg (Some 0) height wm wfnt = generate F L t b fnt bg None height wm wfnt"
  "generate F L t b fnt bg width (Some 0) wm wfnt = generate F L t b fnt bg width None wm wfnt"
  unfolding generate_def resize_background_def dimensions_of_zero given_zero given.simps(1)
  by (rule refl)+

lemma dimensions_of_Inr:
  assumes "dimensions_of F r width height = Inr (a, b)"
  shows "(case given width of Some w \<Rightarrow> (case given height of Some h \<Rightarrow> a = w \<or> b = h | None \<Rightarrow> a = w)
          | None \<Rightarrow> (case given height of Some h \<Rightarrow> b = h | None \<Rightarrow> a = 600))"
  using assms
  by (auto simp: dimensions_of_def split: option.splits sum.splits if_splits)

lemma generate_negative_fails:
  assumes "(\<exists>w. width = Some w \<and> w < 0) \<or> (\<exists>h. height = Some h \<and> h < 0)"
  shows "isl (generate F L t b fnt bg width height wm wfnt)"
proof (rule ccontr)
  assume "\<not> isl (generate F L t b fnt bg width height wm wfnt)"
  then obtain im where "generate F L t b fnt bg width height wm wfnt = Inr im"
    by (cases "generate F L t b fnt bg width height wm wfnt") auto
  then obtain resized drawn padded where
    s: "resize_background F (convert_background bg) width height = Inr resized"
       "draw_texts F L resized t b fnt = Inr drawn"
       "(case (given width, given height) of
          (Some w, Some h) \<Rightarrow> add_blurred_background drawn (convert_background bg) w h
        | _ \<Rightarrow> Inr drawn) = Inr padded"
    by (rule generate_stages)
  from s(1) obtain r a b where
    d: "dimensions_of F r width height = Inr (a, b)" and ab: "1 \<le> a" "1 \<le> b"
    by (auto simp: resize_background_def resize_def split: sum.splits if_splits)
  note c = dimensions_of_Inr[OF d]
  from assms show False
  proof
    assume "\<exists>w. width = Some w \<and> w < 0"
    then obtain w where w: "width = Some w" "w < 0" by blast
    show False
    proof (cases "given height")
      case None
      with c w ab show False by simp
    next
      case (Some h)
      with s(3) w have "add_blurred_background drawn (convert_background bg) w h = Inr padded"
        by simp
      with add_blurred_background_negative[of w h drawn "convert_background bg"] w
      show False by simp
    qed
  next
    assume "\<exists>h. height = Some h \<and> h < 0"
    then obtain h where h: "height = Some h" "h < 0" by blast
    show False
    proof (cases "given width")
      case None
      with c h ab show False by simp
    next
      case (Some w)
      with s(3) h have "add_blurred_background drawn (convert_background bg) w h = Inr padded"
        by simp
      with add_blurred_background_negative[of w h drawn "convert_background bg"] h
      show False by simp
    qed
  qed
qed

text \<open>
  C4 as stated fails: \<open>_generate\<close> sets the format tag of the resized image, and of the
  padded one, to PNG. An opaque JPEG background gives an image tagged PNG.
\<close>

theorem generate_jpeg_background_gives_png:
  "img_mode jpeg_600x300 = ''RGB'' \<and> img_format jpeg_600x300 = Some ''JPEG'' \<and>
   generate exact_floats linear_fonts ''TOP'' ''BOTTOM'' () jpeg_600x300 (Some 120) None [] ()
     = Inr \<lparr>img_mode = ''RGB'', img_format = Some ''PNG'', img_size = (120, 60),
            img_texts = [(''TOP'', 12, 1), (''BOTTOM'', 12, 1)]\<rparr>"
  by code_simp

text \<open>
  C4, amended. The format tag of every image returned by \<open>_generate\<close> is PNG, whatever
  the mode and the format of the background. The JPEG or PNG tag that follows the
  background's format is set on the converted background only, which is not the image
  returned.
\<close>

theorem generate_format_png:
  assumes "generate F L t b fnt bg width height wm wfnt = Inr im"
  shows "img_format im = Some ''PNG''"
  using assms by (rule generate_format)

theorem generate_format_png_witness:
  "generate exact_floats linear_fonts ''TOP'' ''BOTTOM'' () jpeg_600x300 (Some 120) (Some 120)
     ''memegen.link'' ()
     = Inr \<lparr>img_mode = ''RGB'', img_format = Some ''PNG'', img_size = (120, 120),
            img_texts = [(''TOP'', 12, 1), (''BOTTOM'', 12, 1), (''memegen.link'', 15, 1)]\<rparr> \<and>
   img_format \<lparr>img_mode = ''RGB'', img_format = Some ''PNG'', img_size = (120, 120),
            img_texts = [(''TOP'', 12, 1), (''BOTTOM'', 12, 1), (''memegen.link'', 15, 1)]\<rparr>
     = Some ''PNG''"
proof -
  have e: "generate exact_floats linear_fonts ''TOP'' ''BOTTOM'' () jpeg_600x300 (Some 120)
             (Some 120) ''memegen.link'' ()
     = Inr \<lparr>img_mode = ''RGB'', img_format = Some ''PNG'', img_size = (120, 120),
            img_texts = [(''TOP'', 12, 1), (''BOTTOM'', 12, 1), (''memegen.link'', 15, 1)]\<rparr>"
    by code_simp
  from e generate_format_png[OF e] show ?thesis by blast
qed

text \<open>
  C5. When both a positive width and a positive height are requested, every image that
  \<open>_generate\<close> returns has exactly the size (width, height), whatever the size and the
  aspect ratio of the background.
\<close>

theorem generate_exact_dimensions:
  assumes "0 < w" and "0 < h"
    and "generate F L t b fnt bg (Some w) (Some h) wm wfnt = Inr im"
  shows "img_size im = (w, h)"
  using assms by (intro generate_size[of F L t b fnt bg w h wm wfnt im]) simp_all

theorem generate_exact_dimensions_witness:
  "(0::int) < 480 \<and> img_size jpeg_600x300 = (600, 300) \<and>
   generate exact_floats linear_fonts ''TOP TEXT'' ''BOTTOM TEXT'' () jpeg_600x300
     (Some 480) (Some 480) [] ()
     = Inr \<lparr>img_mode = ''RGB'', img_format = Some ''PNG'', img_size = (480, 480),
            img_texts = [(''TOP TEXT'', 48, 1), (''BOTTOM TEXT'', 41, 1)]\<rparr> \<and>
   img_size \<lparr>img_mode = ''RGB'', img_format = Some ''PNG'', img_size = (480, 480),
            img_texts = [(''TOP TEXT'', 48, 1), (''BOTTOM TEXT'', 41, 1)]\<rparr> = (480, 480)"
proof -
  have p: "(0::int) < 480" by simp
  have s: "img_size jpeg_600x300 = (600, 300)" by (simp add: jpeg_600x300_def)
  have e: "generate exact_floats linear_fonts ''TOP TEXT'' ''BOTTOM TEXT'' () jpeg_600x300
             (Some 480) (Some 480) [] ()
     = Inr \<lparr>img_mode = ''RGB'', img_format = Some ''PNG'', img_size = (480, 480),
            img_texts = [(''TOP TEXT'', 48, 1), (''BOTTOM TEXT'', 41, 1)]\<rparr>"
    by code_simp
  from p s e generate_exact_dimensions[OF p p e] show ?thesis by blast
qed

text \<open>
  C9 as stated fails: \<open>_generate\<close> has no check of the requested size. A width and a
  height of 0 are falsy, and the render succeeds at the default width 600.
\<close>

theorem generate_zero_dimensions_succeeds:
  "generate exact_floats linear_fonts ''TOP'' ''BOTTOM'' () jpeg_600x300 (Some 0) (Some 0) [] ()
     = Inr \<lparr>img_mode = ''RGB'', img_format = Some ''PNG'', img_size = (600, 300),
            img_texts = [(''TOP'', 60, 2), (''BOTTOM'', 60, 2)]\<rparr>"
  by code_simp

text \<open>
  C9, amended. A requested width or height of 0 is not rejected: \<open>_generate\<close> treats it
  exactly as an absent one, so the render is sized by the other dimension, or by the
  default width 600 when neither is left. A negative width or height does make the
  render fail, whatever the other arguments are; \<open>_generate\<close> has no check of its own
  for it, so the exception comes from a later step on the opened background, at the
  latest from the imaging library, which refuses the size.
\<close>

theorem generate_zero_absent_negative_fails:
  "generate F L t b fnt bg (Some 0) height wm wfnt
     = generate F L t b fnt bg None height wm wfnt \<and>
   generate F L t b fnt bg width (Some 0) wm wfnt
     = generate F L t b fnt bg width None wm wfnt \<and>
   ((\<exists>w. width = Some w \<and> w < 0) \<or> (\<exists>h. height = Some h \<and> h < 0) \<longrightarrow>
      isl (generate F L t b fnt bg width height wm wfnt))"
  by (simp add: generate_zero_is_absent generate_negative_fails)

theorem generate_zero_absent_negative_fails_witness:
  "generate exact_floats linear_fonts ''TOP'' ''BOTTOM'' () jpeg_600x300 (Some (- 5)) None [] ()
     = Inl ValueError \<and>
   generate exact_floats linear_fonts ''TOP'' ''BOTTOM'' () jpeg_600x300 (Some 480) (Some (- 5)) [] ()
     = Inl ValueError \<and>
   isl (generate exact_floats linear_fonts ''TOP'' ''BOTTOM'' () jpeg_600x300 (Some (- 5)) None [] ()) \<and>
   isl (generate exact_floats linear_fonts ''TOP'' ''BOTTOM'' () jpeg_600x300 (Some 480) (Some (- 5)) [] ())"
proof -
  have a: "generate exact_floats linear_fonts ''TOP'' ''BOTTOM'' () jpeg_600x300 (Some (- 5)) None [] ()
             = Inl ValueError"
    by code_simp
  have b: "generate exact_floats linear_fonts ''TOP'' ''BOTTOM'' () jpeg_600x300 (Some 480)
             (Some (- 5)) [] () = Inl ValueError"
    by code_simp
  have h1: "(\<exists>w. Some (- 5 :: int) = Some w \<and> w < 0) \<or> (\<exists>h. (None :: int option) = Some h \<and> h < 0)"
    by simp
  have h2: "(\<exists>w. Some (480 :: int) = Some w \<and> w < 0) \<or> (\<exists>h. Some (- 5 :: int) = Some h \<and> h < 0)"
    by simp
  from h1 generate_zero_absent_negative_fails[of exact_floats linear_fonts "''TOP''" "''BOTTOM''"
      "()" jpeg_600x300 None "[]" "()" "Some (- 5)"]
  have c: "isl (generate exact_floats linear_fonts ''TOP'' ''BOTTOM'' () jpeg_600x300
                  (Some (- 5)) None [] ())"
    by blast
  from h2 generate_zero_absent_negative_fails[of exact_floats linear_fonts "''TOP''" "''BOTTOM''"
      "()" jpeg_600x300 "Some (- 5)" "[]" "()" "Some 480"]
  have d: "isl (generate exact_floats linear_fonts ''TOP'' ''BOTTOM'' () jpeg_600x300
                  (Some 480) (Some (- 5)) [] ())"
    by blast
  from a b c d show ?thesis by blast
qed

end
